theory Spec2Isabelle
  imports Main
begin

section \<open>The NIX writer of neo2nix: \<^verbatim>\<open>neonix/io/nixio.py\<close>\<close>

text \<open>
  The module maps an in-memory tree of neo objects (a block holding segments) onto the
  nodes of a NIX file (a block holding groups). It has three operations:
  \<^verbatim>\<open>NixIO.write_block\<close>, \<^verbatim>\<open>NixIO.write_segment\<close> and the static comparison
  \<^verbatim>\<open>NixIO._equals\<close>. Exceptions are values of a sum type, the NIX file is an explicit
  state that every writing operation takes and returns, and each \<^verbatim>\<open>for\<close> loop is a
  recursive function over the list it iterates.
\<close>

subsection \<open>Objects and errors\<close>

text \<open>
  The exceptions the code can raise: \<^verbatim>\<open>len(None)\<close> is a \<^verbatim>\<open>TypeError\<close>, reading a
  missing attribute an \<^verbatim>\<open>AttributeError\<close>, \<^verbatim>\<open>blocks[0]\<close> on an empty sequence an
  \<^verbatim>\<open>IndexError\<close>, and \<^verbatim>\<open>write_segment\<close> raises \<^verbatim>\<open>LookupError\<close> with a message.
\<close>

datatype error = TypeError | AttributeError | IndexError | LookupError string

text \<open>
  A neo object carries \<^verbatim>\<open>name\<close> and \<^verbatim>\<open>description\<close>, each \<^verbatim>\<open>None\<close> or a string. A
  block also has the list \<^verbatim>\<open>segments\<close>; a segment has no such attribute, which is
  \<open>neo_segments = None\<close>. \<^verbatim>\<open>_equals\<close> reads every attribute with
  \<^verbatim>\<open>getattr(obj, a, None)\<close>, so for it a missing attribute and one holding \<^verbatim>\<open>None\<close> are
  the same value.
\<close>

datatype neo_obj =
  NeoObj (neo_name: "string option") (neo_description: "string option")
    (neo_segments: "neo_obj list option")

text \<open>
  A NIX object carries \<^verbatim>\<open>name\<close>, \<^verbatim>\<open>type\<close> and \<^verbatim>\<open>definition\<close>; a block also has the
  collection \<^verbatim>\<open>groups\<close>, a group has none (\<open>nix_groups = None\<close>).
\<close>

datatype nix_obj =
  NixObj (nix_name: "string option") (nix_type: string) (nix_definition: "string option")
    (nix_groups: "nix_obj list option")

subsection \<open>The mapping tables\<close>

definition attribute_mappings :: "(string \<times> string) list" where
  "attribute_mappings = [(''name'', ''name''), (''description'', ''definition'')]"

definition container_mappings :: "(string \<times> string) list" where
  "container_mappings = [(''segments'', ''groups'')]"

text \<open>
  \<^verbatim>\<open>getattr(obj, a, None)\<close> on each side, once for the string-valued attributes and once
  for the child collections. A name the object does not have yields \<^verbatim>\<open>None\<close>.
\<close>

fun neo_getattr :: "neo_obj \<Rightarrow> string \<Rightarrow> string option" where
  "neo_getattr obj a =
     (if a = ''name'' then neo_name obj
      else if a = ''description'' then neo_description obj
      else None)"

fun nix_getattr :: "nix_obj \<Rightarrow> string \<Rightarrow> string option" where
  "nix_getattr obj a =
     (if a = ''name'' then nix_name obj
      else if a = ''definition'' then nix_definition obj
      else None)"

fun neo_getcontainer :: "neo_obj \<Rightarrow> string \<Rightarrow> neo_obj list option" where
  "neo_getcontainer obj c = (if c = ''segments'' then neo_segments obj else None)"

fun nix_getcontainer :: "nix_obj \<Rightarrow> string \<Rightarrow> nix_obj list option" where
  "nix_getcontainer obj c = (if c = ''groups'' then nix_groups obj else None)"

subsection \<open>\<^verbatim>\<open>NixIO._equals\<close>\<close>

text \<open>
  The first loop of \<^verbatim>\<open>_equals\<close>: every pair of the attribute table is read from both
  objects, and the first pair that differs returns \<^verbatim>\<open>False\<close>.
\<close>

fun attrs_match :: "neo_obj \<Rightarrow> nix_obj \<Rightarrow> (string \<times> string) list \<Rightarrow> bool" where
  "attrs_match neo_o nix_o [] = True"
| "attrs_match neo_o nix_o ((neo_attr_name, nix_attr_name) # rest) =
     (if neo_getattr neo_o neo_attr_name \<noteq> nix_getattr nix_o nix_attr_name then False
      else attrs_match neo_o nix_o rest)"

text \<open>
  \<open>equals\<close> is \<^verbatim>\<open>_equals\<close>. \<open>containers_equal\<close> is its loop over the container table
  and \<open>children_equal\<close> the inner loop over \<^verbatim>\<open>zip(neo_container, nix_container)\<close>.
  The guard \<^verbatim>\<open>not (neo_container is nix_container is None)\<close> is false only when both
  collections are \<^verbatim>\<open>None\<close>; when exactly one is, \<^verbatim>\<open>len\<close> is applied to \<^verbatim>\<open>None\<close> and
  raises. The recursive call passes no \<^verbatim>\<open>cascade\<close> argument, so it runs with the
  default \<^verbatim>\<open>True\<close>.
\<close>

function equals :: "neo_obj \<Rightarrow> nix_obj \<Rightarrow> bool \<Rightarrow> error + bool"
  and containers_equal :: "neo_obj \<Rightarrow> nix_obj \<Rightarrow> (string \<times> string) list \<Rightarrow> error + bool"
  and children_equal :: "(neo_obj \<times> nix_obj) list \<Rightarrow> error + bool"
where
  "equals neo_o nix_o cascade =
     (if \<not> attrs_match neo_o nix_o attribute_mappings then Inr False
      else if cascade then containers_equal neo_o nix_o container_mappings
      else Inr True)"
| "containers_equal neo_o nix_o [] = Inr True"
| "containers_equal neo_o nix_o ((neo_container_name, nix_container_name) # rest) =
     (case (neo_getcontainer neo_o neo_container_name,
            nix_getcontainer nix_o nix_container_name) of
        (None, None) \<Rightarrow> containers_equal neo_o nix_o rest
      | (None, Some ys) \<Rightarrow> Inl TypeError
      | (Some xs, None) \<Rightarrow> Inl TypeError
      | (Some xs, Some ys) \<Rightarrow>
          if length xs \<noteq> length ys then Inr False
          else (case children_equal (zip xs ys) of
                  Inl e \<Rightarrow> Inl e
                | Inr False \<Rightarrow> Inr False
                | Inr True \<Rightarrow> containers_equal neo_o nix_o rest))"
| "children_equal [] = Inr True"
| "children_equal ((neo_child_obj, nix_child_obj) # rest) =
     (case equals neo_child_obj nix_child_obj True of
        Inl e \<Rightarrow> Inl e
      | Inr False \<Rightarrow> Inr False
      | Inr True \<Rightarrow> children_equal rest)"
  by pat_completeness auto

termination
proof -
  have child_size: "size_list size xs < size obj" if "Some xs = neo_segments obj" for xs obj
    using that by (cases obj) auto
  show ?thesis
    by (relation "measures [
       (\<lambda>v. case v of Inl (a, b, c) \<Rightarrow> size a
                   | Inr (Inl (a, b, m)) \<Rightarrow> size a
                   | Inr (Inr ps) \<Rightarrow> size_list size (map fst ps)),
       (\<lambda>v. case v of Inl (a, b, c) \<Rightarrow> 2
                   | Inr (Inl (a, b, m)) \<Rightarrow> 1
                   | Inr (Inr ps) \<Rightarrow> 0),
       (\<lambda>v. case v of Inl (a, b, c) \<Rightarrow> 0
                   | Inr (Inl (a, b, m)) \<Rightarrow> length m
                   | Inr (Inr ps) \<Rightarrow> length ps)]")
      (auto split: if_splits dest: child_size)
qed

subsection \<open>The NIX file\<close>

text \<open>
  The store is the external NIX library; the repository only calls it. Its state is, for
  every path, the list of root blocks in enumeration order and the number of handles
  currently open on that path. A Python reference to a block or a group is its position.
\<close>

datatype file_mode = ReadOnly | ReadWrite | Overwrite

record store =
  files :: "string \<Rightarrow> nix_obj list"
  open_handles :: "string \<Rightarrow> nat"

text \<open>
  Modelled from the spec: \<^verbatim>\<open>nix.File.open(path, mode)\<close> of the NIX library, which is
  not part of the repository. Overwrite mode destroys the prior content at the path;
  read-write mode keeps it. Either way one more handle is open afterwards.
\<close>

definition file_open :: "string \<Rightarrow> file_mode \<Rightarrow> store \<Rightarrow> store" where
  "file_open path mode s =
     (let s' = (if mode = Overwrite then s\<lparr>files := (files s)(path := [])\<rparr> else s)
      in s'\<lparr>open_handles := (open_handles s')(path := Suc (open_handles s' path))\<rparr>)"

text \<open>
  Modelled from the spec: \<^verbatim>\<open>nix_file.close()\<close> of the NIX library releases one handle.
\<close>

definition file_close :: "string \<Rightarrow> store \<Rightarrow> store" where
  "file_close path s = s\<lparr>open_handles := (open_handles s)(path := open_handles s path - 1)\<rparr>"

text \<open>
  Modelled from the spec: \<^verbatim>\<open>nix_file.blocks\<close> of the NIX library enumerates the root
  nodes.
\<close>

definition file_blocks :: "string \<Rightarrow> store \<Rightarrow> nix_obj list" where
  "file_blocks path s = files s path"

text \<open>
  Modelled from the spec: \<^verbatim>\<open>nix_file.create_block(name, type)\<close> of the NIX library
  appends a root node with an empty group collection and no definition, and returns a
  reference to it.
\<close>

definition create_block :: "string \<Rightarrow> string option \<Rightarrow> string \<Rightarrow> store \<Rightarrow> nat \<times> store" where
  "create_block path nm ty s =
     (length (files s path),
      s\<lparr>files := (files s)(path := files s path @ [NixObj nm ty None (Some [])])\<rparr>)"

text \<open>
  Field updates and the child list of a node of the store. A position handed to the
  operations below is always one that \<open>create_block\<close> or \<open>create_group\<close> returned, or
  position \<open>0\<close> of a list checked to be non-empty; an update at a position beyond the
  list changes nothing.
\<close>

fun with_definition :: "string option \<Rightarrow> nix_obj \<Rightarrow> nix_obj" where
  "with_definition d (NixObj nm ty _ gs) = NixObj nm ty d gs"

fun groups_of :: "nix_obj \<Rightarrow> nix_obj list" where
  "groups_of (NixObj nm ty d None) = []"
| "groups_of (NixObj nm ty d (Some gs)) = gs"

fun with_groups :: "nix_obj list \<Rightarrow> nix_obj \<Rightarrow> nix_obj" where
  "with_groups gs (NixObj nm ty d _) = NixObj nm ty d (Some gs)"

text \<open>
  Modelled from the spec: the setter \<^verbatim>\<open>nix_block.definition = d\<close> of the NIX library, on
  the root node at position \<open>i\<close>.
\<close>

definition set_block_definition :: "string \<Rightarrow> nat \<Rightarrow> string option \<Rightarrow> store \<Rightarrow> store" where
  "set_block_definition path i d s =
     s\<lparr>files := (files s)(path := (files s path)[i := with_definition d (files s path ! i)])\<rparr>"

text \<open>
  Modelled from the spec: \<^verbatim>\<open>nix_block.create_group(name, type)\<close> of the NIX library
  appends a child node without definition to the root node at position \<open>i\<close> and returns
  a reference to it. A group has no group collection of its own.
\<close>

definition create_group :: "string \<Rightarrow> nat \<Rightarrow> string option \<Rightarrow> string \<Rightarrow> store \<Rightarrow> nat \<times> store" where
  "create_group path i nm ty s =
     (let b = files s path ! i
      in (length (groups_of b),
          s\<lparr>files := (files s)(path :=
               (files s path)[i := with_groups (groups_of b @ [NixObj nm ty None None]) b])\<rparr>))"

text \<open>
  Modelled from the spec: the setter \<^verbatim>\<open>nix_group.definition = d\<close> of the NIX library, on
  child \<open>j\<close> of the root node at position \<open>i\<close>.
\<close>

definition set_group_definition ::
  "string \<Rightarrow> nat \<Rightarrow> nat \<Rightarrow> string option \<Rightarrow> store \<Rightarrow> store" where
  "set_group_definition path i j d s =
     (let b = files s path ! i
      in s\<lparr>files := (files s)(path :=
           (files s path)[i := with_groups ((groups_of b)[j := with_definition d (groups_of b ! j)]) b])\<rparr>)"

subsection \<open>\<^verbatim>\<open>NixIO.write_segment\<close>\<close>

record NixIO =
  filename :: string

text \<open>\<^verbatim>\<open>str.format\<close> prints \<^verbatim>\<open>None\<close> as the text \<^verbatim>\<open>None\<close> and a string as itself.\<close>

fun py_format :: "string option \<Rightarrow> string" where
  "py_format None = ''None''"
| "py_format (Some v) = v"

definition lookup_error_message :: "string option \<Rightarrow> string option \<Rightarrow> string \<Rightarrow> string" where
  "lookup_error_message parent_name segment_name path =
     ''Parent block with name '' @ [CHR 0x27] @ py_format parent_name @ [CHR 0x27]
       @ '' for segment with name '' @ [CHR 0x27] @ py_format segment_name @ [CHR 0x27]
       @ '' does not exist in file '' @ [CHR 0x27] @ path @ [CHR 0x27] @ ''.''"

text \<open>
  The \<^verbatim>\<open>for ... else\<close> loop of \<^verbatim>\<open>write_segment\<close> over the blocks that remain to be
  visited. On the first block that \<^verbatim>\<open>_equals\<close> accepts, the loop variable is rebound to
  \<^verbatim>\<open>nix_file.blocks[0]\<close>, the group is created there and the loop is left. When the
  blocks are exhausted the \<^verbatim>\<open>else\<close> branch raises. Every exception leaves the loop with
  the file as it is at that moment.
\<close>

fun write_segment_loop ::
  "NixIO \<Rightarrow> neo_obj \<Rightarrow> neo_obj \<Rightarrow> nix_obj list \<Rightarrow> store \<Rightarrow> (error + unit) \<times> store" where
  "write_segment_loop self segment parent_block [] s =
     (Inl (LookupError (lookup_error_message (neo_name parent_block) (neo_name segment)
             (filename self))), s)"
| "write_segment_loop self segment parent_block (nix_block # rest) s =
     (case equals parent_block nix_block False of
        Inl e \<Rightarrow> (Inl e, s)
      | Inr False \<Rightarrow> write_segment_loop self segment parent_block rest s
      | Inr True \<Rightarrow>
          (case file_blocks (filename self) s of
             [] \<Rightarrow> (Inl IndexError, s)
           | _ # _ \<Rightarrow>
               (let (nix_group, s1) =
                      create_group (filename self) 0 (neo_name segment) ''neo.segment'' s;
                    s2 = set_group_definition (filename self) 0 nix_group
                           (neo_description segment) s1
                in (Inr (), s2))))"

text \<open>
  \<^verbatim>\<open>write_segment\<close>: open read-write, run the loop, close. The \<^verbatim>\<open>close\<close> call is the
  last statement of the function and stands outside any \<^verbatim>\<open>try\<close>, so an exception from
  the loop skips it. The \<^verbatim>\<open>cascade\<close> parameter is not read.
\<close>

definition write_segment ::
  "NixIO \<Rightarrow> neo_obj \<Rightarrow> neo_obj \<Rightarrow> bool \<Rightarrow> store \<Rightarrow> (error + unit) \<times> store" where
  "write_segment self segment parent_block cascade s =
     (let s1 = file_open (filename self) ReadWrite s
      in case write_segment_loop self segment parent_block (file_blocks (filename self) s1) s1 of
           (Inl e, s2) \<Rightarrow> (Inl e, s2)
         | (Inr u, s2) \<Rightarrow> (Inr (), file_close (filename self) s2))"

subsection \<open>\<^verbatim>\<open>NixIO.write_block\<close>\<close>

text \<open>
  The loop \<^verbatim>\<open>for segment in neo_block.segments: self.write_segment(segment, neo_block)\<close>;
  the call leaves \<^verbatim>\<open>cascade\<close> at its default \<^verbatim>\<open>True\<close>.
\<close>

fun write_segments :: "NixIO \<Rightarrow> neo_obj list \<Rightarrow> neo_obj \<Rightarrow> store \<Rightarrow> (error + unit) \<times> store" where
  "write_segments self [] neo_block s = (Inr (), s)"
| "write_segments self (segment # rest) neo_block s =
     (case write_segment self segment neo_block True s of
        (Inl e, s1) \<Rightarrow> (Inl e, s1)
      | (Inr u, s1) \<Rightarrow> write_segments self rest neo_block s1)"

text \<open>
  \<^verbatim>\<open>write_block\<close>: open in overwrite mode, create the block, set its definition, write
  the segments when cascading, close. Reading \<^verbatim>\<open>neo_block.segments\<close> on an object
  without that attribute raises \<^verbatim>\<open>AttributeError\<close>. As in \<^verbatim>\<open>write_segment\<close>, an
  exception skips the \<^verbatim>\<open>close\<close> call.
\<close>

definition write_block :: "NixIO \<Rightarrow> neo_obj \<Rightarrow> bool \<Rightarrow> store \<Rightarrow> (error + unit) \<times> store" where
  "write_block self neo_block cascade s =
     (let s1 = file_open (filename self) Overwrite s;
          (nix_block, s2) = create_block (filename self) (neo_name neo_block) ''neo.block'' s1;
          s3 = set_block_definition (filename self) nix_block (neo_description neo_block) s2
      in if cascade then
           (case neo_segments neo_block of
              None \<Rightarrow> (Inl AttributeError, s3)
            | Some segments \<Rightarrow>
                (case write_segments self segments neo_block s3 of
                   (Inl e, s4) \<Rightarrow> (Inl e, s4)
                 | (Inr u, s4) \<Rightarrow> (Inr (), file_close (filename self) s4)))
         else (Inr (), file_close (filename self) s3))"

subsection \<open>The recursion of \<^verbatim>\<open>_equals\<close> with its depth made explicit\<close>

text \<open>
  The same three functions with a bound on the depth of nested \<^verbatim>\<open>_equals\<close> calls:
  every call of \<^verbatim>\<open>_equals\<close> spends one unit, the two loops spend none, and \<open>None\<close>
  means that the bound was reached before the call returned.
\<close>

fun equals_fuel :: "nat \<Rightarrow> neo_obj \<Rightarrow> nix_obj \<Rightarrow> bool \<Rightarrow> (error + bool) option"
  and containers_equal_fuel ::
    "nat \<Rightarrow> neo_obj \<Rightarrow> nix_obj \<Rightarrow> (string \<times> string) list \<Rightarrow> (error + bool) option"
  and children_equal_fuel :: "nat \<Rightarrow> (neo_obj \<times> nix_obj) list \<Rightarrow> (error + bool) option"
where
  "equals_fuel 0 neo_o nix_o cascade = None"
| "equals_fuel (Suc k) neo_o nix_o cascade =
     (if \<not> attrs_match neo_o nix_o attribute_mappings then Some (Inr False)
      else if cascade then containers_equal_fuel k neo_o nix_o container_mappings
      else Some (Inr True))"
| "containers_equal_fuel k neo_o nix_o [] = Some (Inr True)"
| "containers_equal_fuel k neo_o nix_o ((neo_container_name, nix_container_name) # rest) =
     (case (neo_getcontainer neo_o neo_container_name,
            nix_getcontainer nix_o nix_container_name) of
        (None, None) \<Rightarrow> containers_equal_fuel k neo_o nix_o rest
      | (None, Some ys) \<Rightarrow> Some (Inl TypeError)
      | (Some xs, None) \<Rightarrow> Some (Inl TypeError)
      | (Some xs, Some ys) \<Rightarrow>
          if length xs \<noteq> length ys then Some (Inr False)
          else (case children_equal_fuel k (zip xs ys) of
                  None \<Rightarrow> None
                | Some (Inl e) \<Rightarrow> Some (Inl e)
                | Some (Inr False) \<Rightarrow> Some (Inr False)
                | Some (Inr True) \<Rightarrow> containers_equal_fuel k neo_o nix_o rest))"
| "children_equal_fuel k [] = Some (Inr True)"
| "children_equal_fuel k ((neo_child_obj, nix_child_obj) # rest) =
     (case equals_fuel k neo_child_obj nix_child_obj True of
        None \<Rightarrow> None
      | Some (Inl e) \<Rightarrow> Some (Inl e)
      | Some (Inr False) \<Rightarrow> Some (Inr False)
      | Some (Inr True) \<Rightarrow> children_equal_fuel k rest)"

text \<open>
  The height of a neo tree: an object without child collection has height \<open>0\<close>, an
  object with one is one higher than its highest child.
\<close>

fun neo_depth :: "neo_obj \<Rightarrow> nat" where
  "neo_depth (NeoObj n d None) = 0"
| "neo_depth (NeoObj n d (Some xs)) = Suc (fold max (map neo_depth xs) 0)"

subsection \<open>The comparison as the specification words it\<close>

text \<open>
  The specification describes the comparison differently from the code in two places:
  a collection present on one side only is a mismatch, and the children are compared
  without cascading, on their mapped attributes alone. \<open>equivalent_spec\<close> follows
  those words; it is compared with \<open>equals\<close> below.
\<close>

definition equivalent_spec :: "neo_obj \<Rightarrow> nix_obj \<Rightarrow> bool \<Rightarrow> bool" where
  "equivalent_spec source target cascade =
     (if neo_name source = nix_name target \<and> neo_description source = nix_definition target
      then (if cascade then
              (case (neo_segments source, nix_groups target) of
                 (None, None) \<Rightarrow> True
               | (None, Some ys) \<Rightarrow> False
               | (Some xs, None) \<Rightarrow> False
               | (Some xs, Some ys) \<Rightarrow>
                   length xs = length ys \<and>
                   list_all (\<lambda>(x, y). neo_name x = nix_name y \<and>
                                       neo_description x = nix_definition y) (zip xs ys))
            else True)
      else False)"

section \<open>Properties of \<^verbatim>\<open>_equals\<close>\<close>

lemma attrs_match_table:
  "attrs_match neo_o nix_o attribute_mappings \<longleftrightarrow>
     neo_name neo_o = nix_name nix_o \<and> neo_description neo_o = nix_definition nix_o"
  by (simp add: attribute_mappings_def)

lemma equals_False_eq:
  "equals neo_o nix_o False =
     Inr (neo_name neo_o = nix_name nix_o \<and> neo_description neo_o = nix_definition nix_o)"
  by (simp add: attrs_match_table)

text \<open>
  Claim C8. Without cascading, \<^verbatim>\<open>_equals\<close> returns \<^verbatim>\<open>True\<close> exactly when the source's
  name equals the target's name and the source's description equals the target's
  definition, a missing attribute counting as \<^verbatim>\<open>None\<close>. It never raises, and neither
  child collection (nor the target's type) enters the result.
\<close>

theorem equals_no_cascade:
  "equals (NeoObj n d segs) (NixObj n' t d' grps) False = Inr (n = n' \<and> d = d')"
  by (simp add: attrs_match_table)

text \<open>
  Claim C10. When neither object has the mapped child collection, the cascading
  comparison skips the container branch: its result is the comparison of the mapped
  attributes, so two such objects with equal name and description/definition are
  equivalent.
\<close>

theorem equals_both_containers_absent:
  "equals (NeoObj n d None) (NixObj n' t d' None) True = Inr (n = n' \<and> d = d')"
  by (simp add: attrs_match_table container_mappings_def)

text \<open>
  Claim C3 says that \<^verbatim>\<open>_equals\<close> returns \<^verbatim>\<open>False\<close> without raising when exactly one of the
  two child collections is missing and the attributes agree. The code enters the branch
  guarded by \<^verbatim>\<open>not (neo_container is nix_container is None)\<close> and applies \<^verbatim>\<open>len\<close> to
  \<^verbatim>\<open>None\<close>: it raises \<^verbatim>\<open>TypeError\<close>, whichever side is the missing one. Evaluated on a
  segment-like source against a block with no groups, and on a block with no segments
  against a group-like target.
\<close>

theorem equals_one_container_absent_raises:
  "equals (NeoObj (Some ''B1'') (Some ''d1'') None)
          (NixObj (Some ''B1'') ''neo.block'' (Some ''d1'') (Some [])) True = Inl TypeError
   \<and> equals (NeoObj (Some ''B1'') (Some ''d1'') (Some []))
          (NixObj (Some ''B1'') ''neo.segment'' (Some ''d1'') None) True = Inl TypeError"
  by (simp add: attrs_match_table container_mappings_def)

text \<open>The same holds for every pair of objects with equal attributes.\<close>

lemma equals_one_container_absent_general:
  "neo_name a = nix_name b \<Longrightarrow> neo_description a = nix_definition b \<Longrightarrow>
   (neo_segments a = None) \<noteq> (nix_groups b = None) \<Longrightarrow> equals a b True = Inl TypeError"
  by (auto simp add: attrs_match_table container_mappings_def split: option.splits)

subsection \<open>The recursion into the children\<close>

lemma children_equal_True_iff:
  "length xs = length ys \<Longrightarrow>
   children_equal (zip xs ys) = Inr True \<longleftrightarrow>
     list_all2 (\<lambda>x y. equals x y True = Inr True) xs ys"
proof (induction xs ys rule: list_induct2)
  case Nil
  show ?case by simp
next
  case (Cons x xs y ys)
  then show ?case
    by (cases "equals x y True") (simp_all split: bool.splits del: equals.simps)
qed

lemma equals_cascade_unfold:
  "equals (NeoObj n d (Some xs)) (NixObj n' t d' (Some ys)) True =
     (if n = n' \<and> d = d' then
        (if length xs = length ys then
           (case children_equal (zip xs ys) of
              Inl e \<Rightarrow> Inl e | Inr False \<Rightarrow> Inr False | Inr True \<Rightarrow> Inr True)
         else Inr False)
      else Inr False)"
  by (simp add: attrs_match_table container_mappings_def split: sum.splits bool.splits)

text \<open>
  Claim C1 says that the children are compared by a non-cascading call, on their mapped
  attributes only. The recursive call of the code omits the \<^verbatim>\<open>cascade\<close> argument and
  so cascades, as the docstring announces (test all child objects recursively). On the
  trees below every pair of children agrees on its attributes, so the comparison the
  specification words accepts them, but the child's own collections differ in length
  and \<^verbatim>\<open>_equals\<close> returns \<^verbatim>\<open>False\<close>.
\<close>

theorem equals_children_not_attribute_only:
  "equivalent_spec
     (NeoObj (Some ''B1'') (Some ''d1'')
        (Some [NeoObj (Some ''S1'') (Some ''x'') (Some [NeoObj (Some ''T1'') None None])]))
     (NixObj (Some ''B1'') ''neo.block'' (Some ''d1'')
        (Some [NixObj (Some ''S1'') ''neo.segment'' (Some ''x'') (Some [])])) True = True
   \<and> equals
     (NeoObj (Some ''S1'') (Some ''x'') (Some [NeoObj (Some ''T1'') None None]))
     (NixObj (Some ''S1'') ''neo.segment'' (Some ''x'') (Some [])) False = Inr True
   \<and> equals
     (NeoObj (Some ''B1'') (Some ''d1'')
        (Some [NeoObj (Some ''S1'') (Some ''x'') (Some [NeoObj (Some ''T1'') None None])]))
     (NixObj (Some ''B1'') ''neo.block'' (Some ''d1'')
        (Some [NixObj (Some ''S1'') ''neo.segment'' (Some ''x'') (Some [])])) True = Inr False"
  by (simp add: equivalent_spec_def attribute_mappings_def container_mappings_def)

text \<open>
  Claim C1, amended. With both child collections present, the cascading comparison
  returns \<^verbatim>\<open>True\<close> exactly when the mapped attributes agree, the collections have the
  same length and every pair of children is itself equivalent under the cascading
  comparison: the children are compared on their attributes and, recursively, on their
  own collections.
\<close>

theorem equals_cascade_children_cascading:
  "equals (NeoObj n d (Some xs)) (NixObj n' t d' (Some ys)) True = Inr True \<longleftrightarrow>
     n = n' \<and> d = d' \<and> list_all2 (\<lambda>x y. equals x y True = Inr True) xs ys"
proof (cases "length xs = length ys")
  case True
  have kids: "list_all2 (\<lambda>x y. equals x y True = Inr True) xs ys \<longleftrightarrow>
      children_equal (zip xs ys) = Inr True"
    using children_equal_True_iff [OF True] by simp
  show ?thesis
  proof (cases "children_equal (zip xs ys)")
    case (Inl e)
    then show ?thesis unfolding equals_cascade_unfold kids using True by simp
  next
    case (Inr r)
    then show ?thesis unfolding equals_cascade_unfold kids using True by (cases r) simp_all
  qed
next
  case False
  then have "\<not> list_all2 (\<lambda>x y. equals x y True = Inr True) xs ys"
    by (auto dest: list_all2_lengthD)
  then show ?thesis
    unfolding equals_cascade_unfold using False by simp
qed

subsection \<open>Termination\<close>

lemma fold_max_ge_init: "(a::nat) \<le> fold max xs a"
proof (induction xs arbitrary: a)
  case Nil
  show ?case by simp
next
  case (Cons x xs)
  have "a \<le> max x a" by simp
  also have "\<dots> \<le> fold max xs (max x a)" by (rule Cons.IH)
  finally show ?case by simp
qed

lemma fold_max_ge_member: "(x::nat) \<in> set xs \<Longrightarrow> x \<le> fold max xs a"
proof (induction xs arbitrary: a)
  case Nil
  then show ?case by simp
next
  case (Cons y ys)
  show ?case
  proof (cases "x = y")
    case True
    have "x \<le> max y a" using True by simp
    also have "\<dots> \<le> fold max ys (max y a)" by (rule fold_max_ge_init)
    finally show ?thesis by simp
  next
    case False
    with Cons.prems have "x \<in> set ys" by simp
    then show ?thesis using Cons.IH by simp
  qed
qed

lemma child_depth_less:
  assumes "neo_segments neo_o = Some xs" and "x \<in> set xs"
  shows "neo_depth x < neo_depth neo_o"
proof -
  obtain n d where neo_eq: "neo_o = NeoObj n d (Some xs)"
    using assms(1) by (cases neo_o) auto
  have "neo_depth x \<in> set (map neo_depth xs)" using assms(2) by simp
  then have "neo_depth x \<le> fold max (map neo_depth xs) 0" by (rule fold_max_ge_member)
  then show ?thesis by (simp add: neo_eq)
qed

lemma children_fuel_enough:
  assumes IH: "\<And>a b c. neo_depth a < k \<Longrightarrow> equals_fuel k a b c = Some (equals a b c)"
  shows "list_all (\<lambda>p. neo_depth (fst p) < k) ps \<Longrightarrow>
         children_equal_fuel k ps = Some (children_equal ps)"
proof (induction ps)
  case Nil
  show ?case by simp
next
  case (Cons p ps)
  obtain x y where p: "p = (x, y)" by (cases p)
  from Cons.prems p have "neo_depth x < k" by simp
  then have "equals_fuel k x y True = Some (equals x y True)" by (rule IH)
  moreover from Cons have "children_equal_fuel k ps = Some (children_equal ps)" by simp
  ultimately show ?case unfolding p by (simp split: sum.splits bool.splits)
qed

lemma containers_fuel_enough:
  assumes IH: "\<And>a b c. neo_depth a < k \<Longrightarrow> equals_fuel k a b c = Some (equals a b c)"
    and depth: "neo_depth neo_o \<le> k"
  shows "containers_equal_fuel k neo_o nix_o m = Some (containers_equal neo_o nix_o m)"
proof (induction m)
  case Nil
  show ?case by simp
next
  case (Cons p m)
  obtain a b where p: "p = (a, b)" by (cases p)
  have kids: "children_equal_fuel k (zip xs ys) = Some (children_equal (zip xs ys))"
    if "neo_segments neo_o = Some xs" for xs ys
  proof (rule children_fuel_enough [OF IH])
    show "list_all (\<lambda>p. neo_depth (fst p) < k) (zip xs ys)"
      unfolding list_all_iff
    proof
      fix q assume "q \<in> set (zip xs ys)"
      then have "fst q \<in> set xs" by (metis prod.collapse set_zip_leftD)
      then have "neo_depth (fst q) < neo_depth neo_o" by (rule child_depth_less [OF that])
      then show "neo_depth (fst q) < k" using depth by simp
    qed
  qed
  show ?case unfolding p using Cons.IH kids
    by (auto split: option.splits sum.splits bool.splits)
qed

text \<open>
  Claim C9. \<^verbatim>\<open>_equals\<close> terminates on every pair of finite trees, with or without
  cascading: the nesting of its calls is bounded by the height of the source tree, since
  each recursive call is on a child of the source object. With a bound above that
  height the depth-bounded run returns, and returns what \<open>equals\<close> returns.
\<close>

theorem equals_fuel_enough:
  "neo_depth neo_o < k \<Longrightarrow> equals_fuel k neo_o nix_o cascade = Some (equals neo_o nix_o cascade)"
proof (induction k arbitrary: neo_o nix_o cascade)
  case 0
  then show ?case by simp
next
  case (Suc k)
  have "containers_equal_fuel k neo_o nix_o container_mappings
        = Some (containers_equal neo_o nix_o container_mappings)"
  proof (rule containers_fuel_enough)
    show "neo_depth neo_o \<le> k" using Suc.prems by simp
  qed (rule Suc.IH)
  then show ?case by simp
qed

theorem equals_fuel_enough_witness:
  "neo_depth (NeoObj (Some ''B1'') None (Some [NeoObj (Some ''S1'') None (Some [])])) < 3 \<and>
   equals_fuel 3 (NeoObj (Some ''B1'') None (Some [NeoObj (Some ''S1'') None (Some [])]))
     (NixObj (Some ''B1'') ''neo.block'' None
        (Some [NixObj (Some ''S1'') ''neo.segment'' None (Some [])])) True = Some (Inr True)"
proof -
  have h: "neo_depth (NeoObj (Some ''B1'') None (Some [NeoObj (Some ''S1'') None (Some [])])) < 3"
    by simp
  show ?thesis
    using h equals_fuel_enough [OF h, of "NixObj (Some ''B1'') ''neo.block'' None
        (Some [NixObj (Some ''S1'') ''neo.segment'' None (Some [])])" True]
    by (simp add: attribute_mappings_def container_mappings_def)
qed

section \<open>Properties of \<^verbatim>\<open>write_block\<close> and \<^verbatim>\<open>write_segment\<close>\<close>

text \<open>
  Claim C7. Writing a block without cascading succeeds and leaves exactly one root node
  at the path, carrying the block's name and description and no children, whatever the
  store held before and whatever segments the block has.
\<close>

theorem write_block_no_cascade:
  "fst (write_block self (NeoObj n d segs) False s) = Inr () \<and>
   files (snd (write_block self (NeoObj n d segs) False s)) (filename self)
     = [NixObj n ''neo.block'' d (Some [])]"
  by (simp add: write_block_def file_open_def create_block_def set_block_definition_def
      file_close_def)

subsection \<open>The parent is not in the file\<close>

lemma write_segment_loop_no_match:
  "list_all (\<lambda>b. equals parent_block b False = Inr False) bs \<Longrightarrow>
   write_segment_loop self segment parent_block bs s =
     (Inl (LookupError (lookup_error_message (neo_name parent_block) (neo_name segment)
        (filename self))), s)"
  by (induction bs) simp_all

text \<open>
  Claim C5. When \<^verbatim>\<open>_equals(parent_block, b, False)\<close> is \<^verbatim>\<open>False\<close> for every root node
  \<open>b\<close> of the file, \<^verbatim>\<open>write_segment\<close> raises \<^verbatim>\<open>LookupError\<close> with the message built
  from the parent's name, the segment's name and the file's path, and the content of
  the store, at this and every other path, is what it was before the call.
\<close>

theorem write_segment_parent_missing:
  assumes "list_all (\<lambda>b. equals parent_block b False = Inr False)
             (file_blocks (filename self) s)"
  shows "fst (write_segment self segment parent_block cascade s) =
           Inl (LookupError (lookup_error_message (neo_name parent_block) (neo_name segment)
             (filename self)))
         \<and> files (snd (write_segment self segment parent_block cascade s)) = files s"
proof -
  let ?s1 = "file_open (filename self) ReadWrite s"
  have blocks: "file_blocks (filename self) ?s1 = file_blocks (filename self) s"
    by (simp add: file_open_def file_blocks_def)
  have files: "files ?s1 = files s"
    by (simp add: file_open_def)
  have "write_segment_loop self segment parent_block (file_blocks (filename self) ?s1) ?s1 =
     (Inl (LookupError (lookup_error_message (neo_name parent_block) (neo_name segment)
        (filename self))), ?s1)"
    using assms unfolding blocks by (rule write_segment_loop_no_match)
  then show ?thesis
    by (simp add: write_segment_def Let_def files)
qed

theorem write_segment_parent_missing_witness:
  "list_all (\<lambda>b. equals (NeoObj (Some ''B1'') (Some ''d1'') (Some [])) b False = Inr False)
     (file_blocks (filename \<lparr>filename = ''f.h5''\<rparr>)
        \<lparr>files = (\<lambda>p. [NixObj (Some ''B0'') ''neo.block'' (Some ''d1'') (Some [])]),
         open_handles = (\<lambda>p. 0)\<rparr>)
   \<and> fst (write_segment \<lparr>filename = ''f.h5''\<rparr> (NeoObj (Some ''S1'') (Some ''x'') None)
        (NeoObj (Some ''B1'') (Some ''d1'') (Some [])) True
        \<lparr>files = (\<lambda>p. [NixObj (Some ''B0'') ''neo.block'' (Some ''d1'') (Some [])]),
         open_handles = (\<lambda>p. 0)\<rparr>)
     = Inl (LookupError
        (''Parent block with name '' @ [CHR 0x27] @ ''B1'' @ [CHR 0x27]
          @ '' for segment with name '' @ [CHR 0x27] @ ''S1'' @ [CHR 0x27]
          @ '' does not exist in file '' @ [CHR 0x27] @ ''f.h5'' @ [CHR 0x27] @ ''.''))
   \<and> files (snd (write_segment \<lparr>filename = ''f.h5''\<rparr> (NeoObj (Some ''S1'') (Some ''x'') None)
        (NeoObj (Some ''B1'') (Some ''d1'') (Some [])) True
        \<lparr>files = (\<lambda>p. [NixObj (Some ''B0'') ''neo.block'' (Some ''d1'') (Some [])]),
         open_handles = (\<lambda>p. 0)\<rparr>))
     = (\<lambda>p. [NixObj (Some ''B0'') ''neo.block'' (Some ''d1'') (Some [])])"
proof -
  have h: "list_all (\<lambda>b. equals (NeoObj (Some ''B1'') (Some ''d1'') (Some [])) b False = Inr False)
     (file_blocks (filename \<lparr>filename = ''f.h5''\<rparr>)
        \<lparr>files = (\<lambda>p. [NixObj (Some ''B0'') ''neo.block'' (Some ''d1'') (Some [])]),
         open_handles = (\<lambda>p. 0)\<rparr>)"
    by (simp add: file_blocks_def attribute_mappings_def)
  show ?thesis
    using h write_segment_parent_missing [OF h, of "NeoObj (Some ''S1'') (Some ''x'') None" True]
    by (simp add: lookup_error_message_def)
qed

text \<open>
  Claim C2 says that \<^verbatim>\<open>write_segment\<close> closes the file on every exit path. The success
  path does; the \<^verbatim>\<open>raise\<close> of the \<^verbatim>\<open>else\<close> branch leaves the function before
  \<^verbatim>\<open>nix_file.close()\<close>. Evaluated on an empty file with no handle open: the call
  raises and one handle is open afterwards.
\<close>

theorem write_segment_error_leaves_file_open:
  "fst (write_segment \<lparr>filename = ''f.h5''\<rparr> (NeoObj (Some ''S1'') (Some ''x'') None)
          (NeoObj (Some ''B1'') (Some ''d1'') (Some [])) True
          \<lparr>files = (\<lambda>p. []), open_handles = (\<lambda>p. 0)\<rparr>)
     = Inl (LookupError (lookup_error_message (Some ''B1'') (Some ''S1'') ''f.h5''))
   \<and> open_handles (snd (write_segment \<lparr>filename = ''f.h5''\<rparr>
          (NeoObj (Some ''S1'') (Some ''x'') None)
          (NeoObj (Some ''B1'') (Some ''d1'') (Some [])) True
          \<lparr>files = (\<lambda>p. []), open_handles = (\<lambda>p. 0)\<rparr>)) ''f.h5'' = 1"
  by (simp add: write_segment_def file_open_def file_blocks_def)

text \<open>
  In general: the handle count is back at its old value when the call returns, and one
  higher when it raises.
\<close>

lemma write_segment_loop_handles:
  "open_handles (snd (write_segment_loop self segment parent_block bs s)) = open_handles s"
  by (induction bs)
    (simp_all add: create_group_def set_group_definition_def Let_def
      split: sum.splits bool.splits list.splits del: equals.simps)

lemma write_segment_success_closes:
  "fst (write_segment self segment parent_block cascade s) = Inr () \<Longrightarrow>
   open_handles (snd (write_segment self segment parent_block cascade s)) = open_handles s"
  using write_segment_loop_handles [of self segment parent_block
      "file_blocks (filename self) (file_open (filename self) ReadWrite s)"
      "file_open (filename self) ReadWrite s"]
  by (auto simp add: write_segment_def Let_def file_close_def file_open_def
      split: prod.splits sum.splits)

lemma write_segment_error_leaks:
  "fst (write_segment self segment parent_block cascade s) = Inl e \<Longrightarrow>
   open_handles (snd (write_segment self segment parent_block cascade s)) (filename self)
     = Suc (open_handles s (filename self))"
  using write_segment_loop_handles [of self segment parent_block
      "file_blocks (filename self) (file_open (filename self) ReadWrite s)"
      "file_open (filename self) ReadWrite s"]
  by (auto simp add: write_segment_def Let_def file_close_def file_open_def
      split: prod.splits sum.splits)

subsection \<open>Where the group is created\<close>

text \<open>
  Claim C4 says that the group is created under the root node that matched the parent.
  The code finds the match and then takes \<^verbatim>\<open>nix_file.blocks[0]\<close>. Evaluated on a file
  with the roots \<^verbatim>\<open>B0\<close> and \<^verbatim>\<open>B1\<close> and the parent \<^verbatim>\<open>B1\<close>: the first root does not
  match, the second does, and the group \<^verbatim>\<open>S1\<close> ends up under \<^verbatim>\<open>B0\<close>.
\<close>

theorem write_segment_uses_first_root:
  "equals (NeoObj (Some ''B1'') (Some ''d1'') (Some []))
          (NixObj (Some ''B0'') ''neo.block'' (Some ''d0'') (Some [])) False = Inr False
   \<and> equals (NeoObj (Some ''B1'') (Some ''d1'') (Some []))
          (NixObj (Some ''B1'') ''neo.block'' (Some ''d1'') (Some [])) False = Inr True
   \<and> fst (write_segment \<lparr>filename = ''f.h5''\<rparr> (NeoObj (Some ''S1'') (Some ''x'') None)
          (NeoObj (Some ''B1'') (Some ''d1'') (Some [])) True
          \<lparr>files = (\<lambda>p. [NixObj (Some ''B0'') ''neo.block'' (Some ''d0'') (Some []),
                          NixObj (Some ''B1'') ''neo.block'' (Some ''d1'') (Some [])]),
           open_handles = (\<lambda>p. 0)\<rparr>) = Inr ()
   \<and> files (snd (write_segment \<lparr>filename = ''f.h5''\<rparr> (NeoObj (Some ''S1'') (Some ''x'') None)
          (NeoObj (Some ''B1'') (Some ''d1'') (Some [])) True
          \<lparr>files = (\<lambda>p. [NixObj (Some ''B0'') ''neo.block'' (Some ''d0'') (Some []),
                          NixObj (Some ''B1'') ''neo.block'' (Some ''d1'') (Some [])]),
           open_handles = (\<lambda>p. 0)\<rparr>)) ''f.h5''
     = [NixObj (Some ''B0'') ''neo.block'' (Some ''d0'')
          (Some [NixObj (Some ''S1'') ''neo.segment'' (Some ''x'') None]),
        NixObj (Some ''B1'') ''neo.block'' (Some ''d1'') (Some [])]"
  by (simp add: write_segment_def file_open_def file_blocks_def attribute_mappings_def
      create_group_def set_group_definition_def file_close_def Let_def)

subsection \<open>Writing a block with its segments\<close>

lemma write_segment_single_root:
  assumes "files s (filename self) = [NixObj n ty d (Some gs)]"
    and "neo_name parent_block = n" and "neo_description parent_block = d"
  shows "\<exists>s'. write_segment self segment parent_block cascade s = (Inr (), s') \<and>
     files s' (filename self) =
        [NixObj n ty d (Some (gs @ [NixObj (neo_name segment) ''neo.segment''
                                      (neo_description segment) None]))]"
  using assms
  by (simp add: write_segment_def file_open_def file_blocks_def attrs_match_table
      create_group_def set_group_definition_def file_close_def Let_def)

lemma write_segments_single_root:
  assumes "neo_name parent_block = n" and "neo_description parent_block = d"
  shows "files s (filename self) = [NixObj n ty d (Some gs)] \<Longrightarrow>
     \<exists>s'. write_segments self segs parent_block s = (Inr (), s') \<and>
       files s' (filename self) =
        [NixObj n ty d (Some (gs @ map (\<lambda>sg. NixObj (neo_name sg) ''neo.segment''
                                      (neo_description sg) None) segs))]"
proof (induction segs arbitrary: s gs)
  case Nil
  then show ?case by simp
next
  case (Cons sg segs)
  let ?g = "NixObj (neo_name sg) ''neo.segment'' (neo_description sg) None"
  obtain s1 where step: "write_segment self sg parent_block True s = (Inr (), s1)"
    and s1: "files s1 (filename self) = [NixObj n ty d (Some (gs @ [?g]))]"
    using write_segment_single_root [OF Cons.prems assms] by blast
  obtain s2 where rest: "write_segments self segs parent_block s1 = (Inr (), s2)"
    and s2: "files s2 (filename self) =
        [NixObj n ty d (Some ((gs @ [?g]) @ map (\<lambda>sg. NixObj (neo_name sg) ''neo.segment''
                                      (neo_description sg) None) segs))]"
    using Cons.IH [OF s1] by blast
  show ?case by (simp add: step rest s2)
qed

text \<open>
  Claim C6. Writing a block with its segments succeeds and leaves a single root node at
  the path, whose children are the images of the segments in the order of the source:
  as many groups as segments, the i-th group carrying the name of the i-th segment and
  its description as definition.
\<close>

theorem write_block_cascade:
  "fst (write_block self (NeoObj n d (Some segs)) True s) = Inr () \<and>
   files (snd (write_block self (NeoObj n d (Some segs)) True s)) (filename self) =
     [NixObj n ''neo.block'' d
        (Some (map (\<lambda>sg. NixObj (neo_name sg) ''neo.segment'' (neo_description sg) None) segs))]"
proof -
  let ?s1 = "file_open (filename self) Overwrite s"
  let ?s3 = "set_block_definition (filename self) 0 d
               (snd (create_block (filename self) n ''neo.block'' ?s1))"
  have s3: "files ?s3 (filename self) = [NixObj n ''neo.block'' d (Some [])]"
    by (simp add: file_open_def create_block_def set_block_definition_def)
  have idx: "fst (create_block (filename self) n ''neo.block'' ?s1) = 0"
    by (simp add: file_open_def create_block_def)
  obtain s4 where run: "write_segments self segs (NeoObj n d (Some segs)) ?s3 = (Inr (), s4)"
    and s4: "files s4 (filename self) =
        [NixObj n ''neo.block'' d (Some ([] @ map (\<lambda>sg. NixObj (neo_name sg) ''neo.segment''
                                      (neo_description sg) None) segs))]"
    using write_segments_single_root [OF _ _ s3, of "NeoObj n d (Some segs)" segs] by auto
  show ?thesis
    using s4 by (simp add: write_block_def Let_def split_beta idx run file_close_def)
qed

end
